theory Spec2Isabelle
  imports Complex_Main
begin

section \<open>The heat duel engine of overheat.js\<close>

text \<open>
  The theory embeds the class \<open>HeatDuelGame\<close> of \<^verbatim>\<open>src/overheat.js\<close>. The object
  \<open>this.state\<close> is a record that every method takes and returns. JavaScript numbers
  are modelled as exact rationals (\<open>rat\<close>): every finite double is a rational, but the
  rounding of IEEE arithmetic is not part of the model. Optional card fields are
  \<open>option\<close> values, and the truthiness test \<open>if (card.x)\<close> is written out as
  "present and not zero". The two sides and the phases are closed enumerations; the
  mode and the card type stay strings and are compared with the literals of the source.
\<close>

subsection \<open>Data model\<close>

datatype side = P1 | P2

datatype phase = PhStart | PhAction | PhDefense | PhInsert | PhEnd

datatype error = InvalidMode | InvalidCard | TypeError

record card =
  name :: string
  type :: string
  damage :: "rat option"
  heatChange :: "rat option"
  heal :: "rat option"

record player_state =
  hp :: rat
  heat :: rat
  skipped :: bool
  hand :: "card list"
  deck :: "card list"
  selectedCard :: "card option"

record players_obj =
  p1 :: player_state
  p2 :: player_state

text \<open>
  One constructor per call site of \<open>_log\<close>, carrying the values the message template
  interpolates, in the order of the source.
\<close>

datatype msg =
    MsgInit string
  | MsgSkip side
  | MsgTurnStart side
  | MsgPlay side string
  | MsgDefend side
  | MsgSelected side
  | MsgReveal string string
  | MsgAttackAttack
  | MsgP1AttackP2Defense
  | MsgP2AttackP1Defense
  | MsgDefenseDefense
  | MsgInsertGranted side rat
  | MsgInsertAttack side string
  | MsgHeat side rat rat
  | MsgDamage side side rat rat rat rat
  | MsgHeal side rat rat
  | MsgOverheat side
  | MsgTurnEnd side
  | MsgGameOver
  | MsgWins side
  | MsgDraw side string

text \<open>
  \<open>scheduled\<close> is not a field of \<open>this.state\<close>: it counts the callbacks that
  \<open>_endTurn\<close> has handed to the host's \<open>setTimeout\<close> and that have not fired yet.
\<close>

record game_state =
  players :: players_obj
  turn :: side
  phase :: phase
  mode :: string
  logs :: "msg list"
  scheduled :: nat

subsection \<open>Helpers\<close>

text \<open>
  \<open>truthy\<close> is the test \<open>if (card.x)\<close> on an optional number; \<open>player\<close> is
  \<open>this.state.players[playerId]\<close>, \<open>update_player\<close> a write to that object, and
  \<open>logMsg\<close> is \<open>_log\<close> (the copy to the console is not modelled).
\<close>

definition truthy :: "rat option \<Rightarrow> bool" where
  "truthy v = (case v of None \<Rightarrow> False | Some x \<Rightarrow> x \<noteq> 0)"

definition player :: "game_state \<Rightarrow> side \<Rightarrow> player_state" where
  "player s pid = (case pid of P1 \<Rightarrow> p1 (players s) | P2 \<Rightarrow> p2 (players s))"

definition update_player :: "side \<Rightarrow> (player_state \<Rightarrow> player_state) \<Rightarrow> game_state \<Rightarrow> game_state" where
  "update_player pid f s =
     (case pid of
        P1 \<Rightarrow> s\<lparr>players := (players s)\<lparr>p1 := f (p1 (players s))\<rparr>\<rparr>
      | P2 \<Rightarrow> s\<lparr>players := (players s)\<lparr>p2 := f (p2 (players s))\<rparr>\<rparr>)"

definition logMsg :: "msg \<Rightarrow> game_state \<Rightarrow> game_state" where
  "logMsg m s = s\<lparr>logs := logs s @ [m]\<rparr>"

definition getOpponent :: "side \<Rightarrow> side" where
  "getOpponent playerId = (if playerId = P1 then P2 else P1)"

text \<open>\<open>hand[cardIndex]\<close>: undefined outside the array.\<close>

definition handAt :: "card list \<Rightarrow> int \<Rightarrow> card option" where
  "handAt h i = (if 0 \<le> i \<and> i < int (length h) then Some (h ! nat i) else None)"

text \<open>\<open>hand.splice(cardIndex, 1)\<close>, reached only with an index inside the array.\<close>

definition splice1 :: "card list \<Rightarrow> int \<Rightarrow> card list" where
  "splice1 h i = take (nat i) h @ drop (Suc (nat i)) h"

definition HeatDuelGame :: "card list \<Rightarrow> card list \<Rightarrow> string \<Rightarrow> game_state" where
  "HeatDuelGame player1Deck player2Deck m =
     \<lparr>players =
        \<lparr>p1 = \<lparr>hp = 100, heat = 0, skipped = False, hand = [], deck = player1Deck,
                selectedCard = None\<rparr>,
         p2 = \<lparr>hp = 100, heat = 0, skipped = False, hand = [], deck = player2Deck,
                selectedCard = None\<rparr>\<rparr>,
      turn = P1, phase = PhStart, mode = m, logs = [MsgInit m], scheduled = 0\<rparr>"

text \<open>
  The example cards at the end of the file; their names are transliterated
  (zhongji: heavy strike, kuaici: quick stab, gedang: block, sanre: cool down).
\<close>

definition heavyStrike :: card where
  "heavyStrike = \<lparr>name = ''zhongji'', type = ''attack'', damage = Some 25,
                   heatChange = Some 30, heal = None\<rparr>"

definition quickStab :: card where
  "quickStab = \<lparr>name = ''kuaici'', type = ''attack'', damage = Some 10,
                 heatChange = Some 10, heal = None\<rparr>"

definition block :: card where
  "block = \<lparr>name = ''gedang'', type = ''defense'', damage = None,
             heatChange = Some (- 20), heal = None\<rparr>"

definition coolDown :: card where
  "coolDown = \<lparr>name = ''sanre'', type = ''defense'', damage = None,
                heatChange = Some (- 40), heal = None\<rparr>"

definition exampleCards :: "card list" where
  "exampleCards = [heavyStrike, quickStab, block, coolDown]"

subsection \<open>Effect application\<close>

text \<open>
  \<open>_applyCardEffects\<close> is three \<open>if\<close> blocks in sequence; each block is a function
  here, and \<open>applyCardEffects\<close> runs them in the order of the source.
\<close>

definition applyHeatChange :: "side \<Rightarrow> card \<Rightarrow> game_state \<Rightarrow> game_state" where
  "applyHeatChange playerId c s =
     (if truthy (heatChange c) then
        let s1 = update_player playerId (\<lambda>p. p\<lparr>heat := heat p + the (heatChange c)\<rparr>) s
        in logMsg (MsgHeat playerId (the (heatChange c)) (heat (player s1 playerId))) s1
      else s)"

text \<open>The value the local variable \<open>finalDamage\<close> ends with.\<close>

definition finalDamage :: "rat \<Rightarrow> rat \<Rightarrow> rat \<Rightarrow> rat" where
  "finalDamage d attackMultiplier defenseMultiplier =
     of_int (max 0 \<lfloor>d * attackMultiplier * defenseMultiplier\<rfloor>)"

definition applyDamage :: "side \<Rightarrow> card \<Rightarrow> bool \<Rightarrow> game_state \<Rightarrow> game_state" where
  "applyDamage playerId c isInsertAttack s =
     (if truthy (damage c) \<and> type c = ''attack'' then
        let opponentId = getOpponent playerId;
            attackMultiplier = heat (player s playerId) / 100;
            defenseMultiplier =
              1 - (if isInsertAttack then heat (player s opponentId)
                   else heat (player s playerId)) / 100;
            fd = finalDamage (the (damage c)) attackMultiplier defenseMultiplier;
            s1 = update_player opponentId (\<lambda>p. p\<lparr>hp := hp p - fd\<rparr>) s
        in logMsg (MsgDamage playerId opponentId fd (the (damage c)) attackMultiplier
                     defenseMultiplier) s1
      else s)"

definition applyHeal :: "side \<Rightarrow> card \<Rightarrow> game_state \<Rightarrow> game_state" where
  "applyHeal playerId c s =
     (if truthy (heal c) then
        let s1 = update_player playerId (\<lambda>p. p\<lparr>hp := min 100 (hp p + the (heal c))\<rparr>) s
        in logMsg (MsgHeal playerId (the (heal c)) (hp (player s1 playerId))) s1
      else s)"

definition applyCardEffects :: "side \<Rightarrow> card \<Rightarrow> bool \<Rightarrow> game_state \<Rightarrow> game_state" where
  "applyCardEffects playerId c isInsertAttack s =
     applyHeal playerId c (applyDamage playerId c isInsertAttack (applyHeatChange playerId c s))"

subsection \<open>Overheat, insert turn, game over, end of turn\<close>

definition checkOverheat :: "side \<Rightarrow> game_state \<Rightarrow> game_state" where
  "checkOverheat playerId s =
     (if heat (player s playerId) > 100 then
        update_player playerId (\<lambda>p. p\<lparr>skipped := True, heat := 0\<rparr>)
          (logMsg (MsgOverheat playerId) s)
      else s)"

definition findAttackCard :: "side \<Rightarrow> game_state \<Rightarrow> card option" where
  "findAttackCard playerId s = List.find (\<lambda>c. type c = ''attack'') (hand (player s playerId))"

definition checkInsertTurn :: "side \<Rightarrow> side \<Rightarrow> game_state \<Rightarrow> game_state" where
  "checkInsertTurn attacker defender s =
     (let heatDiff = heat (player s attacker) - heat (player s defender) in
      if heatDiff > 50 then
        let s1 = logMsg (MsgInsertGranted defender heatDiff) s in
        (case findAttackCard defender s1 of
           Some attackCard \<Rightarrow>
             applyCardEffects defender attackCard True
               (logMsg (MsgInsertAttack defender (name attackCard)) s1)
         | None \<Rightarrow> s1)
      else s)"

definition checkGameOver :: "game_state \<Rightarrow> bool \<times> game_state" where
  "checkGameOver s =
     (if hp (p1 (players s)) \<le> 0 then (True, logMsg (MsgWins P2) s)
      else if hp (p2 (players s)) \<le> 0 then (True, logMsg (MsgWins P1) s)
      else (False, s))"

definition endTurn :: "game_state \<Rightarrow> game_state" where
  "endTurn s =
     (let s1 = logMsg (MsgTurnEnd (turn s)) s;
          s2 = s1\<lparr>turn := (if turn s1 = P1 then P2 else P1), phase := PhEnd\<rparr>;
          r = checkGameOver s2
      in if fst r then logMsg MsgGameOver (snd r)
         else (snd r)\<lparr>scheduled := Suc (scheduled (snd r))\<rparr>)"

subsection \<open>Turn start and draw\<close>

definition drawCard :: "side \<Rightarrow> game_state \<Rightarrow> game_state" where
  "drawCard playerId s =
     (case deck (player s playerId) of
        [] \<Rightarrow> s
      | c # rest \<Rightarrow>
          logMsg (MsgDraw playerId (name c))
            (update_player playerId (\<lambda>p. p\<lparr>deck := rest, hand := hand p @ [c]\<rparr>) s))"

definition startTurn :: "game_state \<Rightarrow> game_state" where
  "startTurn s =
     (let activePlayer = turn s;
          opponent = (if activePlayer = P1 then P2 else P1);
          s1 = s\<lparr>phase := PhStart\<rparr>
      in if skipped (player s1 activePlayer) then
           endTurn (update_player activePlayer (\<lambda>p. p\<lparr>skipped := False\<rparr>)
                      (logMsg (MsgSkip activePlayer) s1))
         else
           (logMsg (MsgTurnStart activePlayer)
              (drawCard opponent (drawCard activePlayer s1)))\<lparr>phase := PhAction\<rparr>)"

subsection \<open>Resolution and play submission\<close>

definition resolveTurn :: "game_state \<Rightarrow> game_state" where
  "resolveTurn s =
     (let activePlayer = turn s;
          opponent = getOpponent activePlayer
      in endTurn (checkOverheat opponent (checkOverheat activePlayer
           (checkInsertTurn activePlayer opponent s))))"

text \<open>The two \<open>delete\<close> statements of \<open>_resolveSimultaneousTurn\<close>.\<close>

definition clearSelected :: "game_state \<Rightarrow> game_state" where
  "clearSelected s =
     update_player P2 (\<lambda>p. p\<lparr>selectedCard := None\<rparr>)
       (update_player P1 (\<lambda>p. p\<lparr>selectedCard := None\<rparr>) s)"

text \<open>
  The four branches of \<open>_resolveSimultaneousTurn\<close>, up to the point where they join
  again.
\<close>

definition resolveBranches :: "card \<Rightarrow> card \<Rightarrow> game_state \<Rightarrow> game_state" where
  "resolveBranches p1Card p2Card s =
     (if type p1Card = ''attack'' \<and> type p2Card = ''attack'' then
        applyCardEffects P2 p2Card False
          (applyCardEffects P1 p1Card False (logMsg MsgAttackAttack s))
      else if type p1Card = ''attack'' \<and> type p2Card = ''defense'' then
        checkInsertTurn P1 P2
          (applyCardEffects P2 p2Card False
             (applyCardEffects P1 p1Card False (logMsg MsgP1AttackP2Defense s)))
      else if type p1Card = ''defense'' \<and> type p2Card = ''attack'' then
        checkInsertTurn P2 P1
          (applyCardEffects P2 p2Card False
             (applyCardEffects P1 p1Card False (logMsg MsgP2AttackP1Defense s)))
      else
        applyCardEffects P2 p2Card False
          (applyCardEffects P1 p1Card False (logMsg MsgDefenseDefense s)))"

text \<open>
  The play methods and \<open>_resolveSimultaneousTurn\<close> return the error raised, if any,
  and the state the call leaves behind. Reading \<open>.name\<close> of a missing selection is a
  \<open>TypeError\<close> of the runtime, raised before anything is written.
\<close>

definition resolveSimultaneousTurn :: "game_state \<Rightarrow> error option \<times> game_state" where
  "resolveSimultaneousTurn s =
     (case (selectedCard (p1 (players s)), selectedCard (p2 (players s))) of
        (Some p1Card, Some p2Card) \<Rightarrow>
          (None,
           endTurn (checkOverheat P2 (checkOverheat P1 (clearSelected
             (resolveBranches p1Card p2Card
                (logMsg (MsgReveal (name p1Card) (name p2Card)) s))))))
      | _ \<Rightarrow> (Some TypeError, s))"

definition playCard :: "side \<Rightarrow> int \<Rightarrow> game_state \<Rightarrow> error option \<times> game_state" where
  "playCard playerId cardIndex s =
     (if mode s \<noteq> ''classic'' then (Some InvalidMode, s)
      else
        (case handAt (hand (player s playerId)) cardIndex of
           None \<Rightarrow> (Some InvalidCard, s)
         | Some c \<Rightarrow>
             let s1 = update_player playerId (\<lambda>p. p\<lparr>hand := splice1 (hand p) cardIndex\<rparr>) s;
                 s2 = logMsg (MsgPlay playerId (name c)) s1;
                 s3 = applyCardEffects playerId c False s2
             in if phase s3 = PhAction \<and> playerId = turn s3 then
                  (None, logMsg (MsgDefend (getOpponent playerId)) (s3\<lparr>phase := PhDefense\<rparr>))
                else if phase s3 = PhDefense \<and> playerId \<noteq> turn s3 then
                  (None, resolveTurn s3)
                else (None, s3)))"

definition playCardSimultaneous :: "side \<Rightarrow> int \<Rightarrow> game_state \<Rightarrow> error option \<times> game_state" where
  "playCardSimultaneous playerId cardIndex s =
     (if mode s \<noteq> ''simultaneous'' then (Some InvalidMode, s)
      else
        (case handAt (hand (player s playerId)) cardIndex of
           None \<Rightarrow> (Some InvalidCard, s)
         | Some c \<Rightarrow>
             let s1 = update_player playerId
                        (\<lambda>p. p\<lparr>selectedCard := Some c, hand := splice1 (hand p) cardIndex\<rparr>) s;
                 s2 = logMsg (MsgSelected playerId) s1
             in if selectedCard (p1 (players s2)) \<noteq> None \<and> selectedCard (p2 (players s2)) \<noteq> None
                then resolveSimultaneousTurn s2
                else (None, s2)))"

subsection \<open>Runs of the engine\<close>






subsection \<open>Concrete states used to instantiate the theorems\<close>

definition hotClassic :: game_state where
  "hotClassic = update_player P1 (\<lambda>p. p\<lparr>heat := 120\<rparr>) (HeatDuelGame [] [] ''classic'')"

definition hotSimultaneous :: game_state where
  "hotSimultaneous =
     update_player P2 (\<lambda>p. p\<lparr>selectedCard := Some block\<rparr>)
       (update_player P1 (\<lambda>p. p\<lparr>heat := 90, selectedCard := Some heavyStrike\<rparr>)
          (HeatDuelGame [] [] ''simultaneous''))"

definition bothDown :: game_state where
  "bothDown =
     update_player P2 (\<lambda>p. p\<lparr>hp := - 3\<rparr>)
       (update_player P1 (\<lambda>p. p\<lparr>hp := 0\<rparr>) (HeatDuelGame [] [] ''simultaneous''))"

definition skippedClassic :: game_state where
  "skippedClassic =
     update_player P1 (\<lambda>p. p\<lparr>skipped := True, hand := [block]\<rparr>)
       (HeatDuelGame exampleCards exampleCards ''classic'')"

text \<open>The number of insert attacks a log records.\<close>

definition isInsertAttackMsg :: "msg \<Rightarrow> bool" where
  "isInsertAttackMsg m = (case m of MsgInsertAttack _ _ \<Rightarrow> True | _ \<Rightarrow> False)"

definition insertAttacks :: "msg list \<Rightarrow> nat" where
  "insertAttacks l = length (filter isInsertAttackMsg l)"

definition insertReady :: game_state where
  "insertReady =
     update_player P2 (\<lambda>p. p\<lparr>heat := 20, hand := [block, heavyStrike, quickStab]\<rparr>)
       (update_player P1 (\<lambda>p. p\<lparr>heat := 80\<rparr>) (HeatDuelGame [] [] ''classic''))"



definition handSimultaneous :: game_state where
  "handSimultaneous =
     update_player P1 (\<lambda>p. p\<lparr>hand := [heavyStrike, block]\<rparr>)
       (HeatDuelGame [] [] ''simultaneous'')"

definition firstAid :: card where
  "firstAid = \<lparr>name = ''jijiu'', type = ''defense'', damage = None,
                heatChange = None, heal = Some 10\<rparr>"

definition healThenHit :: game_state where
  "healThenHit =
     update_player P2 (\<lambda>p. p\<lparr>heat := 40, selectedCard := Some quickStab\<rparr>)
       (update_player P1 (\<lambda>p. p\<lparr>selectedCard := Some firstAid\<rparr>)
          (HeatDuelGame [] [] ''simultaneous''))"

definition bothAttack :: game_state where
  "bothAttack =
     update_player P2
       (\<lambda>p. p\<lparr>heat := 90, hand := [heavyStrike], selectedCard := Some quickStab\<rparr>)
       (update_player P1 (\<lambda>p. p\<lparr>hand := [quickStab], selectedCard := Some heavyStrike\<rparr>)
          (HeatDuelGame [] [] ''simultaneous''))"

definition twoHands :: game_state where
  "twoHands =
     update_player P2 (\<lambda>p. p\<lparr>hand := [coolDown]\<rparr>)
       (update_player P1 (\<lambda>p. p\<lparr>hand := [heavyStrike, quickStab, block]\<rparr>)
          (HeatDuelGame [] [] ''simultaneous''))"


section \<open>Basic facts about the state accessors\<close>

lemma getOpponent_neq: "getOpponent pid \<noteq> pid"
  by (cases pid) (simp_all add: getOpponent_def)

lemma player_update_player:
  "player (update_player pid f s) q = (if q = pid then f (player s pid) else player s q)"
  by (cases pid; cases q) (simp_all add: player_def update_player_def)

lemma player_logMsg: "player (logMsg m s) q = player s q"
  by (cases q) (simp_all add: player_def logMsg_def)

lemma fields_update_player:
  "turn (update_player pid f s) = turn s"
  "phase (update_player pid f s) = phase s"
  "mode (update_player pid f s) = mode s"
  "logs (update_player pid f s) = logs s"
  "scheduled (update_player pid f s) = scheduled s"
  by (cases pid; simp add: update_player_def)+

lemma fields_logMsg:
  "turn (logMsg m s) = turn s"
  "phase (logMsg m s) = phase s"
  "mode (logMsg m s) = mode s"
  "logs (logMsg m s) = logs s @ [m]"
  "scheduled (logMsg m s) = scheduled s"
  "players (logMsg m s) = players s"
  by (simp_all add: logMsg_def)

lemma player_phase_update: "player (s\<lparr>phase := ph\<rparr>) q = player s q"
  by (cases q) (simp_all add: player_def)

lemma player_turn_update: "player (s\<lparr>turn := t\<rparr>) q = player s q"
  by (cases q) (simp_all add: player_def)

lemma player_scheduled_update: "player (s\<lparr>scheduled := n\<rparr>) q = player s q"
  by (cases q) (simp_all add: player_def)

lemma player_HeatDuelGame:
  "player (HeatDuelGame d1 d2 m) q =
     \<lparr>hp = 100, heat = 0, skipped = False, hand = [],
      deck = (case q of P1 \<Rightarrow> d1 | P2 \<Rightarrow> d2), selectedCard = None\<rparr>"
  by (cases q) (simp_all add: player_def HeatDuelGame_def)

lemma fields_HeatDuelGame:
  "turn (HeatDuelGame d1 d2 m) = P1"
  "phase (HeatDuelGame d1 d2 m) = PhStart"
  "mode (HeatDuelGame d1 d2 m) = m"
  "logs (HeatDuelGame d1 d2 m) = [MsgInit m]"
  "scheduled (HeatDuelGame d1 d2 m) = 0"
  by (simp_all add: HeatDuelGame_def)

lemmas state_simps =
  player_update_player player_logMsg fields_update_player fields_logMsg
  player_phase_update player_turn_update player_scheduled_update

lemmas eval_defs =
  HeatDuelGame_def update_player_def player_def logMsg_def getOpponent_def truthy_def
  applyCardEffects_def applyHeatChange_def applyDamage_def applyHeal_def finalDamage_def
  checkOverheat_def findAttackCard_def checkInsertTurn_def checkGameOver_def endTurn_def
  drawCard_def startTurn_def resolveTurn_def clearSelected_def resolveBranches_def
  resolveSimultaneousTurn_def playCard_def playCardSimultaneous_def handAt_def splice1_def
  heavyStrike_def quickStab_def block_def coolDown_def firstAid_def exampleCards_def Let_def

lemma side_cases2: "a \<noteq> b \<Longrightarrow> x = a \<or> x = (b::side)"
  by (cases a; cases b; cases x) simp_all

section \<open>Effect application\<close>


lemma player_applyHeatChange:
  "player (applyHeatChange pid c s) q =
     (if q = pid \<and> truthy (heatChange c)
      then (player s pid)\<lparr>heat := heat (player s pid) + the (heatChange c)\<rparr>
      else player s q)"
  by (simp add: applyHeatChange_def Let_def state_simps)

lemma player_applyDamage:
  "player (applyDamage pid c ins s) q =
     (if q = getOpponent pid \<and> truthy (damage c) \<and> type c = ''attack'' then
        (player s q)\<lparr>hp := hp (player s q) -
           finalDamage (the (damage c)) (heat (player s pid) / 100)
             (1 - (if ins then heat (player s (getOpponent pid)) else heat (player s pid)) / 100)\<rparr>
      else player s q)"
  by (simp add: applyDamage_def Let_def state_simps)

lemma player_applyHeal:
  "player (applyHeal pid c s) q =
     (if q = pid \<and> truthy (heal c)
      then (player s pid)\<lparr>hp := min 100 (hp (player s pid) + the (heal c))\<rparr>
      else player s q)"
  by (simp add: applyHeal_def Let_def state_simps)

lemmas player_effects = player_applyHeatChange player_applyDamage player_applyHeal



section \<open>Overheat\<close>

lemma player_checkOverheat:
  "player (checkOverheat pid s) q =
     (if q = pid \<and> heat (player s pid) > 100
      then (player s pid)\<lparr>skipped := True, heat := 0\<rparr>
      else player s q)"
  by (simp add: checkOverheat_def state_simps)

lemma player_checkGameOver: "player (snd (checkGameOver s)) q = player s q"
  by (simp add: checkGameOver_def state_simps)

lemma player_endTurn: "player (endTurn s) q = player s q"
  by (simp add: endTurn_def Let_def state_simps player_checkGameOver)

lemma overheat_pair:
  assumes "a \<noteq> b"
  shows "heat (player (endTurn (checkOverheat b (checkOverheat a t))) x) \<le> 100 \<and>
         (heat (player t x) > 100 \<longrightarrow>
            skipped (player (endTurn (checkOverheat b (checkOverheat a t))) x) \<and>
            heat (player (endTurn (checkOverheat b (checkOverheat a t))) x) = 0)"
  using side_cases2[OF assms, of x] assms
  by (auto simp add: player_endTurn player_checkOverheat)

text \<open>
  C2. After a full resolution, classic (\<open>resolveTurn\<close>) or simultaneous
  (\<open>resolveSimultaneousTurn\<close>, which completes whenever both selections are there),
  the heat of each side \<open>x\<close> is at most 100; and a side whose heat was above 100 in
  the state the overheat checks ran on has \<open>skipped\<close> set and heat exactly 0.
\<close>

theorem overheat_invariant:
  "heat (player (resolveTurn s) x) \<le> 100 \<and>
   (heat (player (checkInsertTurn (turn s) (getOpponent (turn s)) s) x) > 100 \<longrightarrow>
      skipped (player (resolveTurn s) x) \<and> heat (player (resolveTurn s) x) = 0) \<and>
   (selectedCard (p1 (players s)) = Some c1 \<and> selectedCard (p2 (players s)) = Some c2 \<longrightarrow>
      fst (resolveSimultaneousTurn s) = None \<and>
      heat (player (snd (resolveSimultaneousTurn s)) x) \<le> 100 \<and>
      (heat (player (clearSelected (resolveBranches c1 c2
               (logMsg (MsgReveal (name c1) (name c2)) s))) x) > 100 \<longrightarrow>
         skipped (player (snd (resolveSimultaneousTurn s)) x) \<and>
         heat (player (snd (resolveSimultaneousTurn s)) x) = 0))"
proof -
  have ne: "turn s \<noteq> getOpponent (turn s)"
    using getOpponent_neq[of "turn s"] by simp
  have classic:
    "heat (player (resolveTurn s) x) \<le> 100 \<and>
     (heat (player (checkInsertTurn (turn s) (getOpponent (turn s)) s) x) > 100 \<longrightarrow>
        skipped (player (resolveTurn s) x) \<and> heat (player (resolveTurn s) x) = 0)"
    using overheat_pair[OF ne, of "checkInsertTurn (turn s) (getOpponent (turn s)) s" x]
    by (simp add: resolveTurn_def Let_def)
  have sim: "fst (resolveSimultaneousTurn s) = None \<and>
      heat (player (snd (resolveSimultaneousTurn s)) x) \<le> 100 \<and>
      (heat (player (clearSelected (resolveBranches c1 c2
               (logMsg (MsgReveal (name c1) (name c2)) s))) x) > 100 \<longrightarrow>
         skipped (player (snd (resolveSimultaneousTurn s)) x) \<and>
         heat (player (snd (resolveSimultaneousTurn s)) x) = 0)"
    if sel: "selectedCard (p1 (players s)) = Some c1" "selectedCard (p2 (players s)) = Some c2"
  proof -
    have "P1 \<noteq> P2" by simp
    from overheat_pair[OF this, of "clearSelected (resolveBranches c1 c2
               (logMsg (MsgReveal (name c1) (name c2)) s))" x] sel
    show ?thesis by (simp add: resolveSimultaneousTurn_def)
  qed
  from classic sim show ?thesis by blast
qed

theorem overheat_invariant_witness:
  "skipped (player (resolveTurn hotClassic) P1) \<and>
   heat (player (resolveTurn hotClassic) P1) = 0 \<and>
   heat (player (resolveTurn hotClassic) P2) \<le> 100 \<and>
   fst (resolveSimultaneousTurn hotSimultaneous) = None \<and>
   skipped (player (snd (resolveSimultaneousTurn hotSimultaneous)) P1) \<and>
   heat (player (snd (resolveSimultaneousTurn hotSimultaneous)) P1) = 0"
proof -
  have h1: "heat (player (checkInsertTurn (turn hotClassic) (getOpponent (turn hotClassic))
              hotClassic) P1) > 100"
    by (simp add: hotClassic_def eval_defs)
  have s1: "selectedCard (p1 (players hotSimultaneous)) = Some heavyStrike"
    and s2: "selectedCard (p2 (players hotSimultaneous)) = Some block"
    by (simp_all add: hotSimultaneous_def HeatDuelGame_def update_player_def)
  have h2: "heat (player (clearSelected (resolveBranches heavyStrike block
               (logMsg (MsgReveal (name heavyStrike) (name block)) hotSimultaneous))) P1) > 100"
    by (simp add: hotSimultaneous_def eval_defs)
  from overheat_invariant[of hotClassic P1] h1
  have a: "skipped (player (resolveTurn hotClassic) P1) \<and>
           heat (player (resolveTurn hotClassic) P1) = 0" by blast
  from overheat_invariant[of hotClassic P2]
  have b: "heat (player (resolveTurn hotClassic) P2) \<le> 100" by blast
  from overheat_invariant[of hotSimultaneous P1 heavyStrike block] s1 s2 h2
  have c: "fst (resolveSimultaneousTurn hotSimultaneous) = None \<and>
   skipped (player (snd (resolveSimultaneousTurn hotSimultaneous)) P1) \<and>
   heat (player (snd (resolveSimultaneousTurn hotSimultaneous)) P1) = 0" by blast
  from a b c show ?thesis by blast
qed

section \<open>Game over\<close>

lemma fields_checkGameOver:
  "turn (snd (checkGameOver s)) = turn s"
  "phase (snd (checkGameOver s)) = phase s"
  "mode (snd (checkGameOver s)) = mode s"
  by (simp_all add: checkGameOver_def state_simps)

lemma fields_endTurn:
  "turn (endTurn s) = (if turn s = P1 then P2 else P1)"
  "phase (endTurn s) = PhEnd"
  "mode (endTurn s) = mode s"
  by (simp_all add: endTurn_def Let_def state_simps fields_checkGameOver)

lemma logs_endTurn:
  "logs (endTurn s) = logs s @ [MsgTurnEnd (turn s)] @
      (if hp (p1 (players s)) \<le> 0 then [MsgWins P2, MsgGameOver]
       else if hp (p2 (players s)) \<le> 0 then [MsgWins P1, MsgGameOver]
       else [])"
  by (simp add: checkGameOver_def endTurn_def Let_def logMsg_def)

lemma scheduled_endTurn:
  "scheduled (endTurn s) =
      (if hp (p1 (players s)) \<le> 0 \<or> hp (p2 (players s)) \<le> 0 then scheduled s
       else Suc (scheduled s))"
  by (simp add: checkGameOver_def endTurn_def Let_def logMsg_def)

text \<open>
  C8. \<open>checkGameOver\<close> answers true exactly when the hp of some side is at most 0;
  when both are, the first test wins and \<open>p2\<close> is logged as the winner. \<open>endTurn\<close>
  evaluates it after the turn has ended: on game over it logs the winner and the end
  of the game and schedules nothing, otherwise it schedules the next \<open>startTurn\<close>.
\<close>

theorem game_over_precedence:
  "fst (checkGameOver s) = (hp (p1 (players s)) \<le> 0 \<or> hp (p2 (players s)) \<le> 0) \<and>
   (hp (p1 (players s)) \<le> 0 \<and> hp (p2 (players s)) \<le> 0 \<longrightarrow>
      checkGameOver s = (True, logMsg (MsgWins P2) s)) \<and>
   logs (endTurn s) = logs s @ [MsgTurnEnd (turn s)] @
      (if hp (p1 (players s)) \<le> 0 then [MsgWins P2, MsgGameOver]
       else if hp (p2 (players s)) \<le> 0 then [MsgWins P1, MsgGameOver]
       else []) \<and>
   scheduled (endTurn s) =
      (if hp (p1 (players s)) \<le> 0 \<or> hp (p2 (players s)) \<le> 0 then scheduled s
       else Suc (scheduled s))"
  by (simp add: checkGameOver_def endTurn_def Let_def logMsg_def)

theorem game_over_precedence_witness:
  "hp (p1 (players bothDown)) \<le> 0 \<and> hp (p2 (players bothDown)) \<le> 0 \<and>
   checkGameOver bothDown = (True, logMsg (MsgWins P2) bothDown) \<and>
   scheduled (endTurn bothDown) = 0"
proof -
  have h: "hp (p1 (players bothDown)) \<le> 0" "hp (p2 (players bothDown)) \<le> 0"
    by (simp_all add: bothDown_def HeatDuelGame_def update_player_def)
  have sch: "scheduled bothDown = 0"
    by (simp add: bothDown_def HeatDuelGame_def update_player_def)
  from game_over_precedence[of bothDown] h sch show ?thesis by simp
qed

section \<open>Skipped turns\<close>

text \<open>
  C7. When the active side is \<open>skipped\<close>, \<open>startTurn\<close> draws nothing and applies no
  card: hands, decks, hp, heat and selections of both sides stay as they were. It
  clears the active side's flag (the other side's flag is untouched), flips the turn,
  leaves the phase at end, and evaluates game over: the log gains the skip and the end
  of the turn, then the winner and the end of the game if some hp is at most 0, and
  the next turn is scheduled only otherwise.
\<close>

theorem skip_consumption:
  assumes "skipped (player s (turn s))"
  shows "turn (startTurn s) = getOpponent (turn s) \<and>
         phase (startTurn s) = PhEnd \<and>
         mode (startTurn s) = mode s \<and>
         \<not> skipped (player (startTurn s) (turn s)) \<and>
         skipped (player (startTurn s) (getOpponent (turn s))) =
           skipped (player s (getOpponent (turn s))) \<and>
         hand (player (startTurn s) q) = hand (player s q) \<and>
         deck (player (startTurn s) q) = deck (player s q) \<and>
         hp (player (startTurn s) q) = hp (player s q) \<and>
         heat (player (startTurn s) q) = heat (player s q) \<and>
         selectedCard (player (startTurn s) q) = selectedCard (player s q) \<and>
         logs (startTurn s) = logs s @ [MsgSkip (turn s), MsgTurnEnd (turn s)] @
           (if hp (p1 (players s)) \<le> 0 then [MsgWins P2, MsgGameOver]
            else if hp (p2 (players s)) \<le> 0 then [MsgWins P1, MsgGameOver]
            else []) \<and>
         scheduled (startTurn s) =
           (if hp (p1 (players s)) \<le> 0 \<or> hp (p2 (players s)) \<le> 0 then scheduled s
            else Suc (scheduled s))"
proof -
  let ?t = "update_player (turn s) (\<lambda>p. p\<lparr>skipped := False\<rparr>)
              (logMsg (MsgSkip (turn s)) (s\<lparr>phase := PhStart\<rparr>))"
  have st: "startTurn s = endTurn ?t"
    using assms by (simp add: startTurn_def Let_def state_simps)
  have hp1: "hp (p1 (players ?t)) = hp (p1 (players s))"
    and hp2: "hp (p2 (players ?t)) = hp (p2 (players s))"
    by (cases "turn s"; simp add: update_player_def logMsg_def)+
  have lg: "logs ?t = logs s @ [MsgSkip (turn s)]" and tn: "turn ?t = turn s"
    and sc: "scheduled ?t = scheduled s" and md: "mode ?t = mode s"
    by (simp_all add: state_simps)
  have pl: "player ?t r = (if r = turn s then (player s r)\<lparr>skipped := False\<rparr> else player s r)"
    for r
    by (simp add: state_simps)
  show ?thesis
    using logs_endTurn[of ?t] scheduled_endTurn[of ?t] getOpponent_neq[of "turn s"]
    by (simp add: st hp1 hp2 lg tn sc md pl player_endTurn fields_endTurn getOpponent_def)
qed

theorem skip_consumption_witness:
  "skipped (player skippedClassic (turn skippedClassic)) \<and>
   turn (startTurn skippedClassic) = P2 \<and>
   phase (startTurn skippedClassic) = PhEnd \<and>
   \<not> skipped (player (startTurn skippedClassic) P1) \<and>
   hand (player (startTurn skippedClassic) P1) = [block] \<and>
   deck (player (startTurn skippedClassic) P1) = exampleCards \<and>
   hand (player (startTurn skippedClassic) P2) = [] \<and>
   deck (player (startTurn skippedClassic) P2) = exampleCards \<and>
   scheduled (startTurn skippedClassic) = 1"
proof -
  have t: "turn skippedClassic = P1"
    by (simp add: skippedClassic_def HeatDuelGame_def update_player_def)
  have sk: "skipped (player skippedClassic (turn skippedClassic))"
    by (simp add: skippedClassic_def HeatDuelGame_def update_player_def player_def)
  have vals:
    "hand (player skippedClassic P1) = [block]" "deck (player skippedClassic P1) = exampleCards"
    "hand (player skippedClassic P2) = []" "deck (player skippedClassic P2) = exampleCards"
    "hp (p1 (players skippedClassic)) = 100" "hp (p2 (players skippedClassic)) = 100"
    "scheduled skippedClassic = 0"
    by (simp_all add: skippedClassic_def HeatDuelGame_def update_player_def player_def)
  from skip_consumption[OF sk, of P1] skip_consumption[OF sk, of P2] sk t vals
  show ?thesis by (simp add: getOpponent_def)
qed

section \<open>Insert turn\<close>

lemma frame_applyCardEffects:
  "hand (player (applyCardEffects pid c ins s) q) = hand (player s q)"
  "deck (player (applyCardEffects pid c ins s) q) = deck (player s q)"
  "skipped (player (applyCardEffects pid c ins s) q) = skipped (player s q)"
  "selectedCard (player (applyCardEffects pid c ins s) q) = selectedCard (player s q)"
  by (simp_all add: applyCardEffects_def player_effects)

lemma fields_applyCardEffects:
  "turn (applyCardEffects pid c ins s) = turn s"
  "phase (applyCardEffects pid c ins s) = phase s"
  "mode (applyCardEffects pid c ins s) = mode s"
  "scheduled (applyCardEffects pid c ins s) = scheduled s"
  by (simp_all add: applyCardEffects_def applyHeal_def applyDamage_def applyHeatChange_def
      Let_def state_simps)

lemma insertAttacks_append:
  "insertAttacks (l @ l') = insertAttacks l + insertAttacks l'"
  "insertAttacks [] = 0"
  "insertAttacks (m # l) = (if isInsertAttackMsg m then 1 else 0) + insertAttacks l"
  by (simp_all add: insertAttacks_def)

lemma insertAttacks_applyCardEffects:
  "insertAttacks (logs (applyCardEffects pid c ins s)) = insertAttacks (logs s)"
  by (simp add: applyCardEffects_def applyHeal_def applyDamage_def applyHeatChange_def
      Let_def state_simps insertAttacks_append isInsertAttackMsg_def)







lemma frame_checkInsertTurn:
  "hand (player (checkInsertTurn a d s) q) = hand (player s q)"
  "deck (player (checkInsertTurn a d s) q) = deck (player s q)"
  "skipped (player (checkInsertTurn a d s) q) = skipped (player s q)"
  "selectedCard (player (checkInsertTurn a d s) q) = selectedCard (player s q)"
  by (simp_all add: checkInsertTurn_def Let_def frame_applyCardEffects state_simps
      split: option.splits)

section \<open>Hands\<close>

lemma frame_checkOverheat:
  "hand (player (checkOverheat pid s) q) = hand (player s q)"
  "deck (player (checkOverheat pid s) q) = deck (player s q)"
  "hp (player (checkOverheat pid s) q) = hp (player s q)"
  "selectedCard (player (checkOverheat pid s) q) = selectedCard (player s q)"
  by (simp_all add: player_checkOverheat)

lemma frame_resolveTurn:
  "hand (player (resolveTurn s) q) = hand (player s q)"
  "deck (player (resolveTurn s) q) = deck (player s q)"
  by (simp_all add: resolveTurn_def Let_def player_endTurn frame_checkOverheat
      frame_checkInsertTurn)

lemma player_clearSelected:
  "player (clearSelected s) q = (player s q)\<lparr>selectedCard := None\<rparr>"
  by (cases q) (simp_all add: clearSelected_def state_simps)

lemma frame_resolveBranches:
  "hand (player (resolveBranches cardA cardB s) q) = hand (player s q)"
  "deck (player (resolveBranches cardA cardB s) q) = deck (player s q)"
  by (simp_all add: resolveBranches_def frame_checkInsertTurn frame_applyCardEffects state_simps)

lemma frame_resolveSimultaneousTurn:
  "hand (player (snd (resolveSimultaneousTurn s)) q) = hand (player s q)"
  "deck (player (snd (resolveSimultaneousTurn s)) q) = deck (player s q)"
  by (simp_all add: resolveSimultaneousTurn_def player_endTurn frame_checkOverheat
      player_clearSelected frame_resolveBranches state_simps split: option.splits)

lemma handAt_Some:
  "handAt h i = Some c \<longleftrightarrow> 0 \<le> i \<and> nat i < length h \<and> c = h ! nat i"
  by (auto simp add: handAt_def)


lemma hand_playCard:
  assumes "playCard pid i s = (None, s')"
  shows "0 \<le> i \<and> nat i < length (hand (player s pid)) \<and>
         hand (player s' pid) =
           take (nat i) (hand (player s pid)) @ drop (Suc (nat i)) (hand (player s pid)) \<and>
         hand (player s' (getOpponent pid)) = hand (player s (getOpponent pid))"
proof -
  from assms have m: "mode s = ''classic''"
    by (auto simp add: playCard_def split: if_splits)
  from assms m obtain c where c: "handAt (hand (player s pid)) i = Some c"
    by (cases "handAt (hand (player s pid)) i") (auto simp add: playCard_def)
  let ?s3 = "applyCardEffects pid c False (logMsg (MsgPlay pid (name c))
               (update_player pid (\<lambda>p. p\<lparr>hand := splice1 (hand p) i\<rparr>) s))"
  have h3: "hand (player ?s3 q) =
              (if q = pid then splice1 (hand (player s pid)) i else hand (player s q))" for q
    by (simp add: frame_applyCardEffects state_simps)
  from assms m c have "s' = logMsg (MsgDefend (getOpponent pid)) (?s3\<lparr>phase := PhDefense\<rparr>)
      \<or> s' = resolveTurn ?s3 \<or> s' = ?s3"
    by (auto simp add: playCard_def Let_def split: if_splits)
  then have "hand (player s' q) = hand (player ?s3 q)" for q
    by (auto simp add: frame_resolveTurn state_simps)
  with h3 c getOpponent_neq[of pid] show ?thesis
    by (simp add: handAt_Some splice1_def)
qed

lemma hand_playCardSimultaneous:
  assumes "playCardSimultaneous pid i s = (None, s')"
  shows "0 \<le> i \<and> nat i < length (hand (player s pid)) \<and>
         hand (player s' pid) =
           take (nat i) (hand (player s pid)) @ drop (Suc (nat i)) (hand (player s pid)) \<and>
         hand (player s' (getOpponent pid)) = hand (player s (getOpponent pid))"
proof -
  from assms have m: "mode s = ''simultaneous''"
    by (auto simp add: playCardSimultaneous_def split: if_splits)
  from assms m obtain c where c: "handAt (hand (player s pid)) i = Some c"
    by (cases "handAt (hand (player s pid)) i") (auto simp add: playCardSimultaneous_def)
  let ?s2 = "logMsg (MsgSelected pid)
               (update_player pid
                  (\<lambda>p. p\<lparr>selectedCard := Some c, hand := splice1 (hand p) i\<rparr>) s)"
  have h2: "hand (player ?s2 q) =
              (if q = pid then splice1 (hand (player s pid)) i else hand (player s q))" for q
    by (simp add: state_simps)
  from assms m c have "s' = snd (resolveSimultaneousTurn ?s2) \<or> s' = ?s2"
    by (auto simp add: playCardSimultaneous_def Let_def split: if_splits)
  then have "hand (player s' q) = hand (player ?s2 q)" for q
    by (auto simp add: frame_resolveSimultaneousTurn)
  with h2 c getOpponent_neq[of pid] show ?thesis
    by (simp add: handAt_Some splice1_def)
qed

lemma playCard_succeeds:
  "mode s = ''classic'' \<Longrightarrow> 0 \<le> i \<Longrightarrow> nat i < length (hand (player s pid)) \<Longrightarrow>
   fst (playCard pid i s) = None"
  using handAt_Some[of "hand (player s pid)" i "hand (player s pid) ! nat i"]
  by (simp add: playCard_def Let_def)

lemma resolveSimultaneousTurn_succeeds:
  "selectedCard (p1 (players s)) \<noteq> None \<Longrightarrow> selectedCard (p2 (players s)) \<noteq> None \<Longrightarrow>
   fst (resolveSimultaneousTurn s) = None"
  by (auto simp add: resolveSimultaneousTurn_def)

lemma playCardSimultaneous_succeeds:
  "mode s = ''simultaneous'' \<Longrightarrow> 0 \<le> i \<Longrightarrow> nat i < length (hand (player s pid)) \<Longrightarrow>
   fst (playCardSimultaneous pid i s) = None"
  using handAt_Some[of "hand (player s pid)" i "hand (player s pid) ! nat i"]
  by (simp add: playCardSimultaneous_def Let_def resolveSimultaneousTurn_succeeds)

text \<open>
  C4. The insert-turn check leaves every hand (and deck) as it was, so the card of an
  insert attack is still in the defender's hand afterwards. A play that returns
  normally through \<open>playCard\<close> or \<open>playCardSimultaneous\<close> had an index inside the
  hand and leaves the player's hand without the card at that index; the other hand is
  unchanged. Such plays do return normally in the right mode with an index inside the
  hand.
\<close>

theorem insert_card_stays_in_hand:
  "hand (player (checkInsertTurn a d s) q) = hand (player s q) \<and>
   deck (player (checkInsertTurn a d s) q) = deck (player s q) \<and>
   (playCard pid i s = (None, s') \<longrightarrow>
      0 \<le> i \<and> nat i < length (hand (player s pid)) \<and>
      hand (player s' pid) =
        take (nat i) (hand (player s pid)) @ drop (Suc (nat i)) (hand (player s pid)) \<and>
      hand (player s' (getOpponent pid)) = hand (player s (getOpponent pid))) \<and>
   (playCardSimultaneous pid i s = (None, s') \<longrightarrow>
      0 \<le> i \<and> nat i < length (hand (player s pid)) \<and>
      hand (player s' pid) =
        take (nat i) (hand (player s pid)) @ drop (Suc (nat i)) (hand (player s pid)) \<and>
      hand (player s' (getOpponent pid)) = hand (player s (getOpponent pid))) \<and>
   (mode s = ''classic'' \<and> 0 \<le> i \<and> nat i < length (hand (player s pid)) \<longrightarrow>
      fst (playCard pid i s) = None) \<and>
   (mode s = ''simultaneous'' \<and> 0 \<le> i \<and> nat i < length (hand (player s pid)) \<longrightarrow>
      fst (playCardSimultaneous pid i s) = None)"
  using hand_playCard[of pid i s s'] hand_playCardSimultaneous[of pid i s s']
    playCard_succeeds[of s i pid] playCardSimultaneous_succeeds[of s i pid]
  by (simp add: frame_checkInsertTurn)

theorem insert_card_stays_in_hand_witness:
  "hand (player (checkInsertTurn P1 P2 insertReady) P2) = [block, heavyStrike, quickStab] \<and>
   fst (playCard P2 1 insertReady) = None \<and>
   hand (player (snd (playCard P2 1 insertReady)) P2) = [block, quickStab] \<and>
   fst (playCardSimultaneous P1 0 handSimultaneous) = None \<and>
   hand (player (snd (playCardSimultaneous P1 0 handSimultaneous)) P1) = [block]"
proof -
  have r: "hand (player insertReady P2) = [block, heavyStrike, quickStab]"
    "mode insertReady = ''classic''"
    by (simp_all add: insertReady_def state_simps player_HeatDuelGame fields_HeatDuelGame)
  have h: "hand (player handSimultaneous P1) = [heavyStrike, block]"
    "mode handSimultaneous = ''simultaneous''"
    by (simp_all add: handSimultaneous_def state_simps player_HeatDuelGame fields_HeatDuelGame)
  have a: "hand (player (checkInsertTurn P1 P2 insertReady) P2) = [block, heavyStrike, quickStab]"
    using insert_card_stays_in_hand[of P1 P2 insertReady P2] r by simp
  have b1: "fst (playCard P2 1 insertReady) = None"
    using insert_card_stays_in_hand[of P1 P2 insertReady P2 P2 1] r by simp
  then have "playCard P2 1 insertReady = (None, snd (playCard P2 1 insertReady))"
    by (simp add: prod_eq_iff)
  with insert_card_stays_in_hand[of P1 P2 insertReady P2 P2 1 "snd (playCard P2 1 insertReady)"] r
  have b2: "hand (player (snd (playCard P2 1 insertReady)) P2) = [block, quickStab]"
    by simp
  have c1: "fst (playCardSimultaneous P1 0 handSimultaneous) = None"
    using insert_card_stays_in_hand[of P1 P2 handSimultaneous P2 P1 0] h by simp
  then have "playCardSimultaneous P1 0 handSimultaneous =
      (None, snd (playCardSimultaneous P1 0 handSimultaneous))"
    by (simp add: prod_eq_iff)
  with insert_card_stays_in_hand[of P1 P2 handSimultaneous P2 P1 0
      "snd (playCardSimultaneous P1 0 handSimultaneous)"] h
  have c2: "hand (player (snd (playCardSimultaneous P1 0 handSimultaneous)) P1) = [block]"
    by simp
  from a b1 b2 c1 c2 show ?thesis by simp
qed

section \<open>Errors of the play methods\<close>










section \<open>Simultaneous resolution\<close>

lemma insertAttacks_checkOverheat:
  "insertAttacks (logs (checkOverheat pid s)) = insertAttacks (logs s)"
  by (simp add: checkOverheat_def state_simps insertAttacks_append isInsertAttackMsg_def)

lemma insertAttacks_endTurn:
  "insertAttacks (logs (endTurn s)) = insertAttacks (logs s)"
  by (simp add: logs_endTurn insertAttacks_append isInsertAttackMsg_def)

lemma logs_clearSelected: "logs (clearSelected s) = logs s"
  by (simp add: clearSelected_def state_simps)

lemma resolveSimultaneousTurn_factored:
  assumes "selectedCard (p1 (players s)) = Some cardA"
    and "selectedCard (p2 (players s)) = Some cardB"
  shows "resolveSimultaneousTurn s =
     (None,
      endTurn (checkOverheat P2 (checkOverheat P1 (clearSelected
        ((if type cardA = ''attack'' \<and> type cardB = ''defense'' then checkInsertTurn P1 P2
          else if type cardA = ''defense'' \<and> type cardB = ''attack'' then checkInsertTurn P2 P1
          else (\<lambda>t. t))
           (applyCardEffects P2 cardB False
              (applyCardEffects P1 cardA False
                 (logMsg
                    (if type cardA = ''attack'' \<and> type cardB = ''attack'' then MsgAttackAttack
                     else if type cardA = ''attack'' \<and> type cardB = ''defense''
                       then MsgP1AttackP2Defense
                     else if type cardA = ''defense'' \<and> type cardB = ''attack''
                       then MsgP2AttackP1Defense
                     else MsgDefenseDefense)
                    (logMsg (MsgReveal (name cardA) (name cardB)) s)))))))))"
  using assms by (simp add: resolveSimultaneousTurn_def resolveBranches_def)

lemma resolveSimultaneousTurn_same_type:
  assumes "selectedCard (p1 (players s)) = Some cardA"
    and "selectedCard (p2 (players s)) = Some cardB"
    and "type cardA = type cardB"
  shows "resolveSimultaneousTurn s =
     (None,
      endTurn (checkOverheat P2 (checkOverheat P1 (clearSelected
        (applyCardEffects P2 cardB False
           (applyCardEffects P1 cardA False
              (logMsg (if type cardA = ''attack'' then MsgAttackAttack else MsgDefenseDefense)
                 (logMsg (MsgReveal (name cardA) (name cardB)) s))))))))"
    and "insertAttacks (logs (snd (resolveSimultaneousTurn s))) = insertAttacks (logs s)"
proof -
  show eq: "resolveSimultaneousTurn s =
     (None,
      endTurn (checkOverheat P2 (checkOverheat P1 (clearSelected
        (applyCardEffects P2 cardB False
           (applyCardEffects P1 cardA False
              (logMsg (if type cardA = ''attack'' then MsgAttackAttack else MsgDefenseDefense)
                 (logMsg (MsgReveal (name cardA) (name cardB)) s))))))))"
    using assms by (simp add: resolveSimultaneousTurn_def resolveBranches_def)
  show "insertAttacks (logs (snd (resolveSimultaneousTurn s))) = insertAttacks (logs s)"
    by (simp add: eq insertAttacks_endTurn insertAttacks_checkOverheat logs_clearSelected
        insertAttacks_applyCardEffects state_simps insertAttacks_append isInsertAttackMsg_def)
qed

text \<open>
  C6. With both selections present, the simultaneous resolution is one pipeline for
  all four branches: the reveal and the branch message are logged, the effects of the
  card of \<open>p1\<close> are applied, then those of the card of \<open>p2\<close>, then the insert check
  runs only for attack against defense (attacker \<open>p1\<close>) or defense against attack
  (attacker \<open>p2\<close>); the selections are cleared, both overheat checks run and the
  turn ends. When the two cards have the same type, no insert check is part of the
  pipeline and the log gains no insert attack, whatever the heat of the two sides.
\<close>

theorem simultaneous_order:
  assumes "selectedCard (p1 (players s)) = Some cardA"
    and "selectedCard (p2 (players s)) = Some cardB"
  shows "resolveSimultaneousTurn s =
     (None,
      endTurn (checkOverheat P2 (checkOverheat P1 (clearSelected
        ((if type cardA = ''attack'' \<and> type cardB = ''defense'' then checkInsertTurn P1 P2
          else if type cardA = ''defense'' \<and> type cardB = ''attack'' then checkInsertTurn P2 P1
          else (\<lambda>t. t))
           (applyCardEffects P2 cardB False
              (applyCardEffects P1 cardA False
                 (logMsg
                    (if type cardA = ''attack'' \<and> type cardB = ''attack'' then MsgAttackAttack
                     else if type cardA = ''attack'' \<and> type cardB = ''defense''
                       then MsgP1AttackP2Defense
                     else if type cardA = ''defense'' \<and> type cardB = ''attack''
                       then MsgP2AttackP1Defense
                     else MsgDefenseDefense)
                    (logMsg (MsgReveal (name cardA) (name cardB)) s))))))))) \<and>
   (type cardA = type cardB \<longrightarrow>
      resolveSimultaneousTurn s =
        (None,
         endTurn (checkOverheat P2 (checkOverheat P1 (clearSelected
           (applyCardEffects P2 cardB False
              (applyCardEffects P1 cardA False
                 (logMsg (if type cardA = ''attack'' then MsgAttackAttack else MsgDefenseDefense)
                    (logMsg (MsgReveal (name cardA) (name cardB)) s)))))))) \<and>
      insertAttacks (logs (snd (resolveSimultaneousTurn s))) = insertAttacks (logs s))"
  using resolveSimultaneousTurn_factored[OF assms] resolveSimultaneousTurn_same_type[OF assms]
  by blast

theorem simultaneous_order_witness:
  "selectedCard (p1 (players healThenHit)) = Some firstAid \<and>
   selectedCard (p2 (players healThenHit)) = Some quickStab \<and>
   hp (player (snd (resolveSimultaneousTurn healThenHit)) P1) = 98 \<and>
   selectedCard (p1 (players bothAttack)) = Some heavyStrike \<and>
   selectedCard (p2 (players bothAttack)) = Some quickStab \<and>
   heat (player (snd (resolveSimultaneousTurn bothAttack)) P2) -
     heat (player (snd (resolveSimultaneousTurn bothAttack)) P1) = 70 \<and>
   insertAttacks (logs (snd (resolveSimultaneousTurn bothAttack))) = 0"
proof -
  have a: "selectedCard (p1 (players healThenHit)) = Some firstAid"
    "selectedCard (p2 (players healThenHit)) = Some quickStab"
    by (simp_all add: healThenHit_def HeatDuelGame_def update_player_def)
  have b: "selectedCard (p1 (players bothAttack)) = Some heavyStrike"
    "selectedCard (p2 (players bothAttack)) = Some quickStab"
    by (simp_all add: bothAttack_def HeatDuelGame_def update_player_def)
  have ty: "type firstAid = ''defense''" "type quickStab = ''attack''"
    "type heavyStrike = ''attack''"
    by (simp_all add: firstAid_def quickStab_def heavyStrike_def)
  have fl: "\<lfloor>5 / 2 :: rat\<rfloor> = 2"
    by (simp add: floor_eq_iff)
  have pa: "player healThenHit P1 = \<lparr>hp = 100, heat = 0, skipped = False, hand = [],
      deck = [], selectedCard = Some firstAid\<rparr>"
    "player healThenHit P2 = \<lparr>hp = 100, heat = 40, skipped = False, hand = [],
      deck = [], selectedCard = Some quickStab\<rparr>"
    by (simp_all add: healThenHit_def state_simps player_HeatDuelGame)
  have pb: "player bothAttack P1 = \<lparr>hp = 100, heat = 0, skipped = False, hand = [quickStab],
      deck = [], selectedCard = Some heavyStrike\<rparr>"
    "player bothAttack P2 = \<lparr>hp = 100, heat = 90, skipped = False, hand = [heavyStrike],
      deck = [], selectedCard = Some quickStab\<rparr>"
    "logs bothAttack = [MsgInit ''simultaneous'']"
    by (simp_all add: bothAttack_def state_simps player_HeatDuelGame fields_HeatDuelGame)
  have zero: "insertAttacks [MsgInit ''simultaneous''] = 0"
    by (simp add: insertAttacks_def isInsertAttackMsg_def)
  note A = simultaneous_order[OF a, THEN conjunct1]
  have hpA: "hp (player (snd (resolveSimultaneousTurn healThenHit)) P1) = 98"
    by (simp add: A ty player_endTurn player_checkOverheat player_clearSelected
        checkInsertTurn_def applyCardEffects_def player_effects state_simps pa
        getOpponent_def truthy_def finalDamage_def firstAid_def quickStab_def fl)
  have eqB: "type heavyStrike = type quickStab"
    by (simp add: ty)
  note B = simultaneous_order[OF b, THEN conjunct2, THEN mp, OF eqB]
  from B[THEN conjunct2] have cnt:
    "insertAttacks (logs (snd (resolveSimultaneousTurn bothAttack))) = 0"
    by (simp add: pb zero)
  have heatB: "heat (player (snd (resolveSimultaneousTurn bothAttack)) P2) -
     heat (player (snd (resolveSimultaneousTurn bothAttack)) P1) = 70"
    by (simp add: B[THEN conjunct1] ty player_endTurn player_checkOverheat
        player_clearSelected applyCardEffects_def player_effects state_simps pb
        getOpponent_def truthy_def heavyStrike_def quickStab_def)
  from a b hpA cnt heatB show ?thesis by simp
qed

section \<open>Selecting twice in simultaneous mode\<close>

lemma splice1_update:
  "0 \<le> i \<Longrightarrow> splice1 (h[nat i := c]) i = splice1 h i"
  by (simp add: splice1_def)

lemma length_splice1:
  "0 \<le> i \<Longrightarrow> nat i < length h \<Longrightarrow> Suc (length (splice1 h i)) = length h"
  by (simp add: splice1_def) 

lemma both_selected_iff:
  "(selectedCard (p1 (players t)) \<noteq> None \<and> selectedCard (p2 (players t)) \<noteq> None) =
   (selectedCard (player t pid) \<noteq> None \<and> selectedCard (player t (getOpponent pid)) \<noteq> None)"
  by (cases pid) (auto simp add: player_def getOpponent_def)

lemma first_selection:
  assumes "mode s = ''simultaneous''"
    and "selectedCard (player s (getOpponent pid)) = None"
    and "0 \<le> i" and "nat i < length (hand (player s pid))"
  shows "playCardSimultaneous pid i s =
     (None, logMsg (MsgSelected pid)
        (update_player pid
           (\<lambda>p. p\<lparr>selectedCard := Some (hand (player s pid) ! nat i),
                   hand := splice1 (hand (player s pid)) i\<rparr>) s))"
proof -
  have c: "handAt (hand (player s pid)) i = Some (hand (player s pid) ! nat i)"
    using assms(3,4) by (simp add: handAt_Some)
  have u: "update_player pid
             (\<lambda>p. p\<lparr>selectedCard := Some (hand (player s pid) ! nat i),
                     hand := splice1 (hand p) i\<rparr>) s =
           update_player pid
             (\<lambda>p. p\<lparr>selectedCard := Some (hand (player s pid) ! nat i),
                     hand := splice1 (hand (player s pid)) i\<rparr>) s"
    by (cases pid) (simp_all add: update_player_def player_def)
  let ?s2 = "logMsg (MsgSelected pid)
        (update_player pid
           (\<lambda>p. p\<lparr>selectedCard := Some (hand (player s pid) ! nat i),
                   hand := splice1 (hand (player s pid)) i\<rparr>) s)"
  have "selectedCard (player ?s2 (getOpponent pid)) = None"
    using assms(2) getOpponent_neq[of pid] by (simp add: state_simps)
  then have ns: "\<not> (selectedCard (p1 (players ?s2)) \<noteq> None \<and>
                    selectedCard (p2 (players ?s2)) \<noteq> None)"
    unfolding both_selected_iff[of ?s2 pid] by simp
  show ?thesis
    using assms(1) ns by (auto simp add: playCardSimultaneous_def c Let_def u)
qed


lemma second_selection:
  assumes "mode s = ''simultaneous''"
    and "selectedCard (player s (getOpponent pid)) = None"
    and "0 \<le> i" and "nat i < length (hand (player s pid))"
    and "0 \<le> j" and "nat j < length (splice1 (hand (player s pid)) i)"
  shows "playCardSimultaneous pid j (snd (playCardSimultaneous pid i s)) =
     (None,
      (update_player pid
         (\<lambda>p. p\<lparr>selectedCard := Some (splice1 (hand (player s pid)) i ! nat j),
                 hand := splice1 (splice1 (hand (player s pid)) i) j\<rparr>) s)
      \<lparr>logs := logs s @ [MsgSelected pid, MsgSelected pid]\<rparr>)"
proof -
  let ?s1 = "logMsg (MsgSelected pid)
        (update_player pid
           (\<lambda>p. p\<lparr>selectedCard := Some (hand (player s pid) ! nat i),
                   hand := splice1 (hand (player s pid)) i\<rparr>) s)"
  have s1: "snd (playCardSimultaneous pid i s) = ?s1"
    using first_selection[OF assms(1-4)] by simp
  have m1: "mode ?s1 = ''simultaneous''"
    using assms(1) by (simp add: state_simps)
  have o1: "selectedCard (player ?s1 (getOpponent pid)) = None"
    using assms(2) getOpponent_neq[of pid] by (simp add: state_simps)
  have h1: "hand (player ?s1 pid) = splice1 (hand (player s pid)) i"
    by (simp add: state_simps)
  have j1: "nat j < length (hand (player ?s1 pid))"
    using assms(6) by (simp add: h1)
  have "playCardSimultaneous pid j ?s1 =
     (None, logMsg (MsgSelected pid)
        (update_player pid
           (\<lambda>p. p\<lparr>selectedCard := Some (hand (player ?s1 pid) ! nat j),
                   hand := splice1 (hand (player ?s1 pid)) j\<rparr>) ?s1))"
    by (rule first_selection[OF m1 o1 assms(5) j1])
  also have "logMsg (MsgSelected pid)
        (update_player pid
           (\<lambda>p. p\<lparr>selectedCard := Some (hand (player ?s1 pid) ! nat j),
                   hand := splice1 (hand (player ?s1 pid)) j\<rparr>) ?s1) =
      (update_player pid
         (\<lambda>p. p\<lparr>selectedCard := Some (splice1 (hand (player s pid)) i ! nat j),
                 hand := splice1 (splice1 (hand (player s pid)) i) j\<rparr>) s)
      \<lparr>logs := logs s @ [MsgSelected pid, MsgSelected pid]\<rparr>"
    unfolding h1
    by (cases pid) (simp_all add: update_player_def logMsg_def)
  finally show ?thesis by (simp add: s1)
qed


lemma first_card_irrelevant:
  assumes "mode s = ''simultaneous''"
    and "selectedCard (player s (getOpponent pid)) = None"
    and "0 \<le> i" and "nat i < length (hand (player s pid))"
    and "0 \<le> j" and "nat j < length (splice1 (hand (player s pid)) i)"
  shows "playCardSimultaneous pid j (snd (playCardSimultaneous pid i
            (update_player pid (\<lambda>p. p\<lparr>hand := (hand p)[nat i := c']\<rparr>) s))) =
         playCardSimultaneous pid j (snd (playCardSimultaneous pid i s))"
proof -
  let ?x = "update_player pid (\<lambda>p. p\<lparr>hand := (hand p)[nat i := c']\<rparr>) s"
  have hx: "hand (player ?x pid) = (hand (player s pid))[nat i := c']"
    by (simp add: state_simps)
  have sx: "splice1 (hand (player ?x pid)) i = splice1 (hand (player s pid)) i"
    using assms(3) by (simp add: hx splice1_update)
  have mx: "mode ?x = ''simultaneous''"
    using assms(1) by (simp add: state_simps)
  have ox: "selectedCard (player ?x (getOpponent pid)) = None"
    using assms(2) getOpponent_neq[of pid] by (simp add: state_simps)
  have ix: "nat i < length (hand (player ?x pid))"
    using assms(4) by (simp add: hx)
  have jx: "nat j < length (splice1 (hand (player ?x pid)) i)"
    using assms(6) by (simp add: sx)
  have "playCardSimultaneous pid j (snd (playCardSimultaneous pid i ?x)) =
     (None,
      (update_player pid
         (\<lambda>p. p\<lparr>selectedCard := Some (splice1 (hand (player ?x pid)) i ! nat j),
                 hand := splice1 (splice1 (hand (player ?x pid)) i) j\<rparr>) ?x)
      \<lparr>logs := logs ?x @ [MsgSelected pid, MsgSelected pid]\<rparr>)"
    by (rule second_selection[OF mx ox assms(3) ix assms(5) jx])
  also have "\<dots> =
     (None,
      (update_player pid
         (\<lambda>p. p\<lparr>selectedCard := Some (splice1 (hand (player s pid)) i ! nat j),
                 hand := splice1 (splice1 (hand (player s pid)) i) j\<rparr>) s)
      \<lparr>logs := logs s @ [MsgSelected pid, MsgSelected pid]\<rparr>)"
    unfolding sx by (cases pid) (simp_all add: update_player_def)
  also have "\<dots> = playCardSimultaneous pid j (snd (playCardSimultaneous pid i s))"
    by (rule second_selection[OF assms, symmetric])
  finally show ?thesis .
qed

lemma opponent_then_resolves:
  assumes "mode t = ''simultaneous''"
    and "selectedCard (player t pid) = Some c"
    and "0 \<le> k" and "nat k < length (hand (player t (getOpponent pid)))"
  shows "playCardSimultaneous (getOpponent pid) k t =
           resolveSimultaneousTurn
             (logMsg (MsgSelected (getOpponent pid))
                (update_player (getOpponent pid)
                   (\<lambda>p. p\<lparr>selectedCard := Some (hand (player t (getOpponent pid)) ! nat k),
                           hand := splice1 (hand (player t (getOpponent pid))) k\<rparr>) t))"
proof -
  let ?o = "getOpponent pid"
  have c: "handAt (hand (player t ?o)) k = Some (hand (player t ?o) ! nat k)"
    using assms(3,4) by (simp add: handAt_Some)
  have u: "update_player ?o
             (\<lambda>p. p\<lparr>selectedCard := Some (hand (player t ?o) ! nat k),
                     hand := splice1 (hand p) k\<rparr>) t =
           update_player ?o
             (\<lambda>p. p\<lparr>selectedCard := Some (hand (player t ?o) ! nat k),
                     hand := splice1 (hand (player t ?o)) k\<rparr>) t"
    by (cases ?o) (simp_all add: update_player_def player_def)
  let ?t2 = "logMsg (MsgSelected ?o)
        (update_player ?o
           (\<lambda>p. p\<lparr>selectedCard := Some (hand (player t ?o) ! nat k),
                   hand := splice1 (hand (player t ?o)) k\<rparr>) t)"
  have "selectedCard (player ?t2 pid) \<noteq> None \<and> selectedCard (player ?t2 ?o) \<noteq> None"
    using assms(2) getOpponent_neq[of pid] by (simp add: state_simps)
  then have bs: "selectedCard (p1 (players ?t2)) \<noteq> None \<and>
                 selectedCard (p2 (players ?t2)) \<noteq> None"
    unfolding both_selected_iff[of ?t2 pid] .
  show ?thesis
    using assms(1) bs by (auto simp add: playCardSimultaneous_def c Let_def u)
qed

text \<open>
  C10. Simultaneous mode, the other side has not selected yet, and one side selects
  twice: index \<open>i\<close>, then index \<open>j\<close> of the hand that is left. Both calls return
  normally and resolve nothing. After the second call the side's selection is the
  second card, its hand has lost both cards, and apart from two log entries nothing
  else has changed: no effect of the first card was applied, and the first card is
  nowhere in the state. Replacing the first card by any card \<open>c'\<close> before the calls
  gives the same result. When the other side then selects index \<open>k\<close>, the resolution
  runs on a state whose selection for the first side is the second card.
\<close>

theorem double_selection:
  assumes "mode s = ''simultaneous''"
    and "selectedCard (player s (getOpponent pid)) = None"
    and "0 \<le> i" and "nat i < length (hand (player s pid))"
    and "0 \<le> j" and "nat j < length (splice1 (hand (player s pid)) i)"
  shows "playCardSimultaneous pid i s =
           (None, logMsg (MsgSelected pid)
              (update_player pid
                 (\<lambda>p. p\<lparr>selectedCard := Some (hand (player s pid) ! nat i),
                         hand := splice1 (hand (player s pid)) i\<rparr>) s)) \<and>
         playCardSimultaneous pid j (snd (playCardSimultaneous pid i s)) =
           (None,
            (update_player pid
               (\<lambda>p. p\<lparr>selectedCard := Some (splice1 (hand (player s pid)) i ! nat j),
                       hand := splice1 (splice1 (hand (player s pid)) i) j\<rparr>) s)
            \<lparr>logs := logs s @ [MsgSelected pid, MsgSelected pid]\<rparr>) \<and>
         length (splice1 (splice1 (hand (player s pid)) i) j) + 2 = length (hand (player s pid)) \<and>
         playCardSimultaneous pid j (snd (playCardSimultaneous pid i
            (update_player pid (\<lambda>p. p\<lparr>hand := (hand p)[nat i := c']\<rparr>) s))) =
           playCardSimultaneous pid j (snd (playCardSimultaneous pid i s)) \<and>
         (0 \<le> k \<and> nat k < length (hand (player s (getOpponent pid))) \<longrightarrow>
            playCardSimultaneous (getOpponent pid) k
              (snd (playCardSimultaneous pid j (snd (playCardSimultaneous pid i s)))) =
            resolveSimultaneousTurn
              (logMsg (MsgSelected (getOpponent pid))
                 (update_player (getOpponent pid)
                    (\<lambda>p. p\<lparr>selectedCard := Some (hand (player s (getOpponent pid)) ! nat k),
                            hand := splice1 (hand (player s (getOpponent pid))) k\<rparr>)
                    ((update_player pid
                        (\<lambda>p. p\<lparr>selectedCard := Some (splice1 (hand (player s pid)) i ! nat j),
                                hand := splice1 (splice1 (hand (player s pid)) i) j\<rparr>) s)
                     \<lparr>logs := logs s @ [MsgSelected pid, MsgSelected pid]\<rparr>))))"
proof -
  let ?s2 = "(update_player pid
               (\<lambda>p. p\<lparr>selectedCard := Some (splice1 (hand (player s pid)) i ! nat j),
                       hand := splice1 (splice1 (hand (player s pid)) i) j\<rparr>) s)
            \<lparr>logs := logs s @ [MsgSelected pid, MsgSelected pid]\<rparr>"
  note one = first_selection[OF assms(1-4)]
  note two = second_selection[OF assms]
  have len: "length (splice1 (splice1 (hand (player s pid)) i) j) + 2 =
             length (hand (player s pid))"
    using length_splice1[OF assms(3,4)] length_splice1[OF assms(5,6)] by simp
  note three = first_card_irrelevant[OF assms, of c']
  have pl: "player ?s2 q =
      (if q = pid
       then (player s pid)\<lparr>selectedCard := Some (splice1 (hand (player s pid)) i ! nat j),
                             hand := splice1 (splice1 (hand (player s pid)) i) j\<rparr>
       else player s q)" for q
    by (cases pid; cases q) (simp_all add: player_def update_player_def)
  have four: "playCardSimultaneous (getOpponent pid) k
              (snd (playCardSimultaneous pid j (snd (playCardSimultaneous pid i s)))) =
            resolveSimultaneousTurn
              (logMsg (MsgSelected (getOpponent pid))
                 (update_player (getOpponent pid)
                    (\<lambda>p. p\<lparr>selectedCard := Some (hand (player s (getOpponent pid)) ! nat k),
                            hand := splice1 (hand (player s (getOpponent pid))) k\<rparr>) ?s2))"
    if k: "0 \<le> k" "nat k < length (hand (player s (getOpponent pid)))"
  proof -
    have m2: "mode ?s2 = ''simultaneous''"
      using assms(1) by (simp add: state_simps)
    have c2: "selectedCard (player ?s2 pid) = Some (splice1 (hand (player s pid)) i ! nat j)"
      by (simp add: pl)
    have ho: "hand (player ?s2 (getOpponent pid)) = hand (player s (getOpponent pid))"
      using getOpponent_neq[of pid] by (simp add: pl)
    have k2: "nat k < length (hand (player ?s2 (getOpponent pid)))"
      using k(2) by (simp only: ho)
    from opponent_then_resolves[OF m2 c2 k(1) k2] show ?thesis
      by (simp only: two snd_conv ho)
  qed
  from one two len three four show ?thesis by blast
qed

theorem double_selection_witness:
  "mode twoHands = ''simultaneous'' \<and>
   selectedCard (player twoHands P2) = None \<and>
   hand (player twoHands P1) = [heavyStrike, quickStab, block] \<and>
   fst (playCardSimultaneous P1 0 twoHands) = None \<and>
   selectedCard (player (snd (playCardSimultaneous P1 0 twoHands)) P1) = Some heavyStrike \<and>
   fst (playCardSimultaneous P1 0 (snd (playCardSimultaneous P1 0 twoHands))) = None \<and>
   selectedCard (player (snd (playCardSimultaneous P1 0
      (snd (playCardSimultaneous P1 0 twoHands)))) P1) = Some quickStab \<and>
   hand (player (snd (playCardSimultaneous P1 0
      (snd (playCardSimultaneous P1 0 twoHands)))) P1) = [block] \<and>
   fst (playCardSimultaneous P2 0 (snd (playCardSimultaneous P1 0
      (snd (playCardSimultaneous P1 0 twoHands))))) = None \<and>
   heat (player (snd (playCardSimultaneous P2 0 (snd (playCardSimultaneous P1 0
      (snd (playCardSimultaneous P1 0 twoHands)))))) P1) = 10 \<and>
   hp (player (snd (playCardSimultaneous P2 0 (snd (playCardSimultaneous P1 0
      (snd (playCardSimultaneous P1 0 twoHands)))))) P2) = 100"
proof -
  have m: "mode twoHands = ''simultaneous''"
    by (simp add: twoHands_def state_simps fields_HeatDuelGame)
  have pl: "player twoHands P1 = \<lparr>hp = 100, heat = 0, skipped = False,
      hand = [heavyStrike, quickStab, block], deck = [], selectedCard = None\<rparr>"
    "player twoHands P2 = \<lparr>hp = 100, heat = 0, skipped = False,
      hand = [coolDown], deck = [], selectedCard = None\<rparr>"
    by (simp_all add: twoHands_def state_simps player_HeatDuelGame)
  have o: "selectedCard (player twoHands (getOpponent P1)) = None"
    by (simp add: getOpponent_def pl)
  have i: "(0::int) \<le> 0" "nat 0 < length (hand (player twoHands P1))"
    by (simp_all add: pl)
  have j: "nat 0 < length (splice1 (hand (player twoHands P1)) 0)"
    by (simp add: pl splice1_def)
  note T = double_selection[OF m o i i(1) j, of block 0]
  have one: "fst (playCardSimultaneous P1 0 twoHands) = None"
    and sel1: "selectedCard (player (snd (playCardSimultaneous P1 0 twoHands)) P1) =
      Some heavyStrike"
    by (simp_all add: T[THEN conjunct1] state_simps pl)
  note two = T[THEN conjunct2, THEN conjunct1]
  have two_ok: "fst (playCardSimultaneous P1 0 (snd (playCardSimultaneous P1 0 twoHands))) = None"
    by (simp add: two)
  have p2: "player (snd (playCardSimultaneous P1 0
      (snd (playCardSimultaneous P1 0 twoHands)))) P1 =
      \<lparr>hp = 100, heat = 0, skipped = False, hand = [block], deck = [],
       selectedCard = Some quickStab\<rparr>"
    by (simp add: two player_def update_player_def pl[unfolded player_def, simplified]
        splice1_def)
  have k: "0 \<le> (0::int) \<and> nat 0 < length (hand (player twoHands (getOpponent P1)))"
    by (simp add: getOpponent_def pl)
  note three = T[THEN conjunct2, THEN conjunct2, THEN conjunct2, THEN conjunct2, THEN mp, OF k]
  have ty: "type quickStab = ''attack''" "type coolDown = ''defense''"
    by (simp_all add: quickStab_def coolDown_def)
  have fin: "fst (playCardSimultaneous P2 0 (snd (playCardSimultaneous P1 0
      (snd (playCardSimultaneous P1 0 twoHands))))) = None \<and>
   heat (player (snd (playCardSimultaneous P2 0 (snd (playCardSimultaneous P1 0
      (snd (playCardSimultaneous P1 0 twoHands)))))) P1) = 10 \<and>
   hp (player (snd (playCardSimultaneous P2 0 (snd (playCardSimultaneous P1 0
      (snd (playCardSimultaneous P1 0 twoHands)))))) P2) = 100"
    using three
    by (simp add: getOpponent_def twoHands_def eval_defs floor_eq_iff)
  from m pl one sel1 two_ok p2 fin show ?thesis by simp
qed

section \<open>The bound on hp\<close>





















end
